theory Spec2Isabelle
  imports Main "HOL-Library.Word"
begin

section \<open>Byte strings, errors, state changes\<close>

text \<open>
  Go's \<^verbatim>\<open>[]byte\<close> is a list of 8-bit words. Every \<^verbatim>\<open>errors.New\<close> of the
  modelled functions, and every error of the collection and of the byte store,
  is a constructor of one error type.
\<close>

type_synonym bytes = "8 word list"

datatype error =
    KeyCollision
  | KeyNotFound
  | InvalidStateAction
  | StoreFault
  | LatestNotFound
  | VerificationFailed
  | LatestSkipblockNotFound
  | MissingForwardBlock
  | ParentNotFound
  | SendFailed

text \<open>
  \<^verbatim>\<open>StateAction\<close> is an integer type in Go with the three named constants;
  \<^verbatim>\<open>storeInColl\<close> and \<^verbatim>\<open>Store\<close> have a \<^verbatim>\<open>default\<close> branch for every other
  value, which \<open>OtherAction\<close> stands for.
\<close>

datatype StateAction = Create | Update | Remove | OtherAction nat

record StateChange =
  StateAction :: StateAction
  InstanceID :: bytes
  ContractID :: bytes
  DarcID :: bytes
  Value :: bytes

section \<open>The authenticated collection\<close>

text \<open>
  Modelled from the spec: the package \<^verbatim>\<open>omniledger/collection\<close> (type
  \<^verbatim>\<open>collection.Collection\<close> with \<^verbatim>\<open>Add\<close>, \<^verbatim>\<open>Set\<close>, \<^verbatim>\<open>Remove\<close>,
  \<^verbatim>\<open>GetRoot\<close>) is not among the sources. The spec describes it as a logical map
  from instance id to (value, contract-id, darc-id) whose root is deterministic over
  the set of entries. Accordingly a collection is a partial map, and the root is a
  function \<open>H\<close> of that map, taken as a parameter. \<open>Add\<close> refuses a key that is
  present, \<open>Set\<close> and \<open>Remove\<close> refuse a key that is absent; a refused
  operation leaves the collection as it was.
\<close>

type_synonym entry = "bytes \<times> bytes \<times> bytes"

type_synonym collection = "bytes \<rightharpoonup> entry"

definition coll_Add :: "collection \<Rightarrow> bytes \<Rightarrow> bytes \<Rightarrow> bytes \<Rightarrow> bytes \<Rightarrow> error + collection" where
  "coll_Add c k v cid did =
     (if c k \<noteq> None then Inl KeyCollision else Inr (c(k \<mapsto> (v, cid, did))))"

definition coll_Set :: "collection \<Rightarrow> bytes \<Rightarrow> bytes \<Rightarrow> bytes \<Rightarrow> bytes \<Rightarrow> error + collection" where
  "coll_Set c k v cid did =
     (if c k = None then Inl KeyNotFound else Inr (c(k \<mapsto> (v, cid, did))))"

definition coll_Remove :: "collection \<Rightarrow> bytes \<Rightarrow> error + collection" where
  "coll_Remove c k = (if c k = None then Inl KeyNotFound else Inr (c(k := None)))"

definition GetRoot :: "(collection \<Rightarrow> bytes) \<Rightarrow> collection \<Rightarrow> bytes" where
  "GetRoot H c = H c"

section \<open>storeInColl and tryHash\<close>

fun storeInColl :: "collection \<Rightarrow> StateChange \<Rightarrow> error + collection" where
  "storeInColl c t =
     (case StateAction t of
        Create \<Rightarrow> coll_Add c (InstanceID t) (Value t) (ContractID t) (DarcID t)
      | Update \<Rightarrow> coll_Set c (InstanceID t) (Value t) (ContractID t) (DarcID t)
      | Remove \<Rightarrow> coll_Remove c (InstanceID t)
      | OtherAction _ \<Rightarrow> Inl InvalidStateAction)"

text \<open>
  \<^verbatim>\<open>tryHash\<close> has a loop that adds each change with \<^verbatim>\<open>Add\<close>, whatever its
  action, and pushes one deferred \<^verbatim>\<open>Remove\<close> per successful \<^verbatim>\<open>Add\<close>. The loop
  returns the collection, the stack of deferred keys (most recent first, the order Go
  runs them in) and the error that ended it, if any.
\<close>

fun tryHash_loop :: "collection \<Rightarrow> StateChange list \<Rightarrow> bytes list
    \<Rightarrow> collection \<times> bytes list \<times> error option" where
  "tryHash_loop c [] ds = (c, ds, None)"
| "tryHash_loop c (sc # ts) ds =
     (case coll_Add c (InstanceID sc) (Value sc) (ContractID sc) (DarcID sc) of
        Inl e \<Rightarrow> (c, ds, Some e)
      | Inr c' \<Rightarrow> tryHash_loop c' ts (InstanceID sc # ds))"

text \<open>
  The deferred calls run on return, last pushed first. A failing \<^verbatim>\<open>Remove\<close>
  replaces the result by its error (\<^verbatim>\<open>rerr = err; mr = nil\<close>) and the remaining
  deferred calls still run.
\<close>

fun tryHash_deferred :: "collection \<Rightarrow> bytes list \<Rightarrow> error + bytes
    \<Rightarrow> collection \<times> (error + bytes)" where
  "tryHash_deferred c [] r = (c, r)"
| "tryHash_deferred c (k # ds) r =
     (case coll_Remove c k of
        Inl e \<Rightarrow> tryHash_deferred c ds (Inl e)
      | Inr c' \<Rightarrow> tryHash_deferred c' ds r)"

definition tryHash :: "(collection \<Rightarrow> bytes) \<Rightarrow> collection \<Rightarrow> StateChange list
    \<Rightarrow> collection \<times> (error + bytes)" where
  "tryHash H c ts =
     (case tryHash_loop c ts [] of
        (c', ds, Some e) \<Rightarrow> tryHash_deferred c' ds (Inl e)
      | (c', ds, None) \<Rightarrow> tryHash_deferred c' ds (Inr (GetRoot H c')))"

section \<open>The durable store and Store\<close>

text \<open>
  The byte store (bbolt) is an external library. Of a database only the bucket named
  \<^verbatim>\<open>bucketName\<close> matters here, a map from keys to values, which
  \<^verbatim>\<open>newCollectionDB\<close> has created. Whether the store accepts writes is not decided
  by this code (disk full, database closed or read-only), so it is a field of the
  database state: a refusing store answers every \<^verbatim>\<open>Put\<close> and \<^verbatim>\<open>Delete\<close>
  with an error.
\<close>

record boltDB =
  kv :: "bytes \<rightharpoonup> bytes"
  refuses_writes :: bool

definition bucket_Put :: "boltDB \<Rightarrow> bytes \<Rightarrow> bytes \<Rightarrow> error + boltDB" where
  "bucket_Put tx k v =
     (if refuses_writes tx then Inl StoreFault else Inr (tx\<lparr>kv := (kv tx)(k \<mapsto> v)\<rparr>))"

definition bucket_Delete :: "boltDB \<Rightarrow> bytes \<Rightarrow> error + boltDB" where
  "bucket_Delete tx k =
     (if refuses_writes tx then Inl StoreFault else Inr (tx\<lparr>kv := (kv tx)(k := None)\<rparr>))"

text \<open>
  \<^verbatim>\<open>db.Update(fn)\<close> runs \<open>fn\<close> in one transaction: when \<open>fn\<close> returns an
  error the transaction is rolled back and the error returned, otherwise the writes
  are committed.
\<close>

definition db_Update :: "boltDB \<Rightarrow> (boltDB \<Rightarrow> error + boltDB) \<Rightarrow> boltDB \<times> error option" where
  "db_Update d fn = (case fn d of Inl e \<Rightarrow> (d, Some e) | Inr d' \<Rightarrow> (d', None))"

record collectionDB =
  db :: boltDB
  bucketName :: bytes
  coll :: collection
  scID :: bytes

text \<open>
  The function passed to \<^verbatim>\<open>db.Update\<close> by \<^verbatim>\<open>Store\<close>: three keys per instance,
  the instance id prefixed by 0, 1 and 2, each write returning at the first error.
\<close>

definition Store_tx_put :: "StateChange \<Rightarrow> boltDB \<Rightarrow> error + boltDB" where
  "Store_tx_put sc tx =
     (case bucket_Put tx (0 # InstanceID sc) (Value sc) of Inl e \<Rightarrow> Inl e | Inr tx1 \<Rightarrow>
      case bucket_Put tx1 (1 # InstanceID sc) (ContractID sc) of Inl e \<Rightarrow> Inl e | Inr tx2 \<Rightarrow>
      bucket_Put tx2 (2 # InstanceID sc) (DarcID sc))"

definition Store_tx_delete :: "StateChange \<Rightarrow> boltDB \<Rightarrow> error + boltDB" where
  "Store_tx_delete sc tx =
     (case bucket_Delete tx (0 # InstanceID sc) of Inl e \<Rightarrow> Inl e | Inr tx1 \<Rightarrow>
      case bucket_Delete tx1 (1 # InstanceID sc) of Inl e \<Rightarrow> Inl e | Inr tx2 \<Rightarrow>
      bucket_Delete tx2 (2 # InstanceID sc))"

definition Store_tx :: "StateChange \<Rightarrow> boltDB \<Rightarrow> error + boltDB" where
  "Store_tx sc tx =
     (case StateAction sc of
        Create \<Rightarrow> Store_tx_put sc tx
      | Update \<Rightarrow> Store_tx_put sc tx
      | Remove \<Rightarrow> Store_tx_delete sc tx
      | OtherAction _ \<Rightarrow> Inl InvalidStateAction)"

definition Store :: "collectionDB \<Rightarrow> StateChange \<Rightarrow> collectionDB \<times> error option" where
  "Store c sc =
     (case storeInColl (coll c) sc of
        Inl e \<Rightarrow> (c, Some e)
      | Inr coll' \<Rightarrow>
          (case db_Update (db c) (Store_tx sc) of
             (db', r) \<Rightarrow> (c\<lparr>coll := coll', db := db'\<rparr>, r)))"

text \<open>
  Applying a list of changes in order with \<^verbatim>\<open>storeInColl\<close>, which is what
  committing them one by one does to the collection.
\<close>

fun storeAllInColl :: "collection \<Rightarrow> StateChange list \<Rightarrow> error + collection" where
  "storeAllInColl c [] = Inr c"
| "storeAllInColl c (t # ts) =
     (case storeInColl c t of Inl e \<Rightarrow> Inl e | Inr c' \<Rightarrow> storeAllInColl c' ts)"

section \<open>Skipchain blocks\<close>

text \<open>
  The file of the skipchain service is among the sources; the declarations of
  \<^verbatim>\<open>SkipBlock\<close>, \<^verbatim>\<open>SkipBlockCommon\<close>, \<^verbatim>\<open>BlockLink\<close> and \<^verbatim>\<open>VerifierID\<close>
  are not. The types below have the fields the service reads and writes.
  \<^verbatim>\<open>SkipBlock\<close> is an interface with the two implementations
  \<^verbatim>\<open>*SkipBlockData\<close> and \<^verbatim>\<open>*SkipBlockRoster\<close>, both with the common part
  that \<^verbatim>\<open>GetCommon()\<close> returns. \<^verbatim>\<open>Index\<close> and \<^verbatim>\<open>Height\<close> are Go
  \<^verbatim>\<open>int\<close>s, 64-bit words whose \<open>+\<close> wraps. The entity list of a roster block is
  a pointer, \<open>None\<close> when nil. The hash field of a link is named \<open>LinkHash\<close>,
  the one of a block \<open>Hash\<close>.
\<close>

type_synonym SkipBlockID = bytes

datatype VerifierID = VerifyNone | VerifyOther nat

record BlockLink =
  LinkHash :: SkipBlockID
  Signature :: bytes

record SkipBlockCommon =
  Index :: "64 word"
  Height :: "64 word"
  BackLink :: "SkipBlockID list"
  ForwardLink :: "BlockLink list"
  VerifierId :: VerifierID
  ParentBlock :: SkipBlockID
  Hash :: SkipBlockID

datatype SkipBlock =
    SkipBlockData SkipBlockCommon bytes
  | SkipBlockRoster SkipBlockCommon "bytes list option"

fun GetCommon :: "SkipBlock \<Rightarrow> SkipBlockCommon" where
  "GetCommon (SkipBlockData c d) = c"
| "GetCommon (SkipBlockRoster c el) = c"

text \<open>Writing through the pointer that \<^verbatim>\<open>GetCommon()\<close> returns.\<close>

fun SetCommon :: "SkipBlock \<Rightarrow> SkipBlockCommon \<Rightarrow> SkipBlock" where
  "SetCommon (SkipBlockData _ d) c = SkipBlockData c d"
| "SetCommon (SkipBlockRoster _ el) c = SkipBlockRoster c el"

text \<open>
  What the service takes from outside: the digest that \<^verbatim>\<open>updateHash\<close> computes,
  the link that \<^verbatim>\<open>NewBlockLink()\<close> returns, and whether a request to an entity
  can be created and sent.
\<close>

record env =
  hashOf :: "SkipBlock \<Rightarrow> SkipBlockID"
  NewBlockLink :: BlockLink
  sendOk :: "bytes \<Rightarrow> bool"

text \<open>
  Modelled from the spec: \<^verbatim>\<open>updateHash\<close> is not among the sources. The spec has
  the hash derived from the fields of the block except the forward links; so the
  digest is taken of the block with its forward links and its hash field blanked.
  \<^verbatim>\<open>updateHash\<close> stores the digest in the block and returns it.
\<close>

definition hash_input :: "SkipBlock \<Rightarrow> SkipBlock" where
  "hash_input b = SetCommon b ((GetCommon b)\<lparr>ForwardLink := [], Hash := []\<rparr>)"

definition updateHash :: "env \<Rightarrow> SkipBlock \<Rightarrow> SkipBlock \<times> SkipBlockID" where
  "updateHash E b =
     (SetCommon b ((GetCommon b)\<lparr>Hash := hashOf E (hash_input b)\<rparr>), hashOf E (hash_input b))"

section \<open>The skipchain service\<close>

text \<open>
  \<^verbatim>\<open>Service.SkipBlocks\<close> maps the string of a block id to the block. The map
  holds pointers: a write through \<open>prev\<close>, which was read from the map, changes the
  stored block, so \<open>updateNewSkipBlock\<close> takes the key under which \<open>prev\<close> is
  stored and writes the changed block back. A proposed block is a fresh value, as
  the request handlers decode it.
\<close>

type_synonym SkipBlocks = "SkipBlockID \<rightharpoonup> SkipBlock"

definition verifyNewSkipBlock :: "SkipBlock \<Rightarrow> SkipBlock \<Rightarrow> bool" where
  "verifyNewSkipBlock latest newest \<longleftrightarrow> VerifierId (GetCommon newest) = VerifyNone"

text \<open>
  The 32 bytes of the genesis back-link: \<^verbatim>\<open>make([]byte, 32)\<close> filled by
  \<^verbatim>\<open>rand.Read\<close>, whose error is dropped; \<open>rnd\<close> is what the random source
  delivered.
\<close>

definition random_backlink :: "bytes \<Rightarrow> bytes" where
  "random_backlink rnd = take 32 (rnd @ replicate 32 0)"

definition updateNewSkipBlock :: "env \<Rightarrow> SkipBlocks \<Rightarrow> (SkipBlockID \<times> SkipBlock) option
    \<Rightarrow> SkipBlock \<Rightarrow> bytes \<Rightarrow> SkipBlocks \<times> SkipBlock option \<times> SkipBlock" where
  "updateNewSkipBlock E S prev proposed rnd =
     (let sbc = (GetCommon proposed)\<lparr>Height := 1, BackLink := replicate 1 []\<rparr> in
      case prev of
        None \<Rightarrow>
          (let sbc' = sbc\<lparr>Index := Index sbc + 1,
                          BackLink := (BackLink sbc)[0 := random_backlink rnd]\<rparr>;
               (proposed', curID) = updateHash E (SetCommon proposed sbc')
           in (S(curID \<mapsto> proposed'), None, proposed'))
      | Some (key, prev0) \<Rightarrow>
          (let (prev1, prevID) = updateHash E prev0;
               sbc' = sbc\<lparr>Index := Index (GetCommon prev0) + 1,
                          BackLink := (BackLink sbc)[0 := prevID]\<rparr>;
               (proposed', curHashID) = updateHash E (SetCommon proposed sbc');
               prev2 = SetCommon prev1
                 ((GetCommon prev1)\<lparr>ForwardLink := [(NewBlockLink E)\<lparr>LinkHash := curHashID\<rparr>]\<rparr>)
           in ((S(key \<mapsto> prev2))(curHashID \<mapsto> proposed'), Some prev2, proposed')))"

datatype propagation = Propagated | PropagationError error | PropagationPanic

fun send_all :: "env \<Rightarrow> bytes list \<Rightarrow> propagation" where
  "send_all E [] = Propagated"
| "send_all E (e # es) = (if sendOk E e then send_all E es else PropagationError SendFailed)"

text \<open>
  \<^verbatim>\<open>startPropagation\<close>: a data block is sent to the entity list of its parent,
  a roster block to its own. The unchecked type assertion
  \<^verbatim>\<open>parent.(*SkipBlockRoster)\<close> panics when the parent is a data block, and
  \<^verbatim>\<open>el.List\<close> panics on a nil entity list.
\<close>

definition entity_list_send :: "env \<Rightarrow> bytes list option \<Rightarrow> propagation" where
  "entity_list_send E el = (case el of None \<Rightarrow> PropagationPanic | Some l \<Rightarrow> send_all E l)"

definition startPropagation :: "env \<Rightarrow> SkipBlocks \<Rightarrow> SkipBlock \<Rightarrow> propagation" where
  "startPropagation E S latest =
     (case latest of
        SkipBlockData c d \<Rightarrow>
          (case S (ParentBlock c) of
             None \<Rightarrow> PropagationError ParentNotFound
           | Some (SkipBlockData pc pd) \<Rightarrow> PropagationPanic
           | Some (SkipBlockRoster pc el) \<Rightarrow> entity_list_send E el)
      | SkipBlockRoster c el \<Rightarrow> entity_list_send E el)"

datatype ProposedSkipBlockReply =
  ProposedSkipBlockReply (Previous: "SkipBlock option") (Latest: SkipBlock)

datatype 'a outcome = Returned 'a | Failed error | Panicked

text \<open>
  \<^verbatim>\<open>ProposeSkipBlock\<close> drops the error of \<^verbatim>\<open>startPropagation\<close>; a panic there
  ends the call after the block was stored. An empty \<open>latest\<close> stands for both nil
  and the empty slice. Here the proposed block is a block; a nil value is treated
  below.
\<close>

definition after_propagation :: "propagation \<Rightarrow> ProposedSkipBlockReply
    \<Rightarrow> ProposedSkipBlockReply outcome" where
  "after_propagation p reply = (case p of PropagationPanic \<Rightarrow> Panicked | _ \<Rightarrow> Returned reply)"

definition ProposeSkipBlock :: "env \<Rightarrow> SkipBlocks \<Rightarrow> SkipBlockID \<Rightarrow> SkipBlock \<Rightarrow> bytes
    \<Rightarrow> SkipBlocks \<times> ProposedSkipBlockReply outcome" where
  "ProposeSkipBlock E S latest proposed rnd =
     (if latest = [] then
        (let proposed1 = SetCommon proposed ((GetCommon proposed)\<lparr>VerifierId := VerifyNone\<rparr>);
             (S', prev', proposed') = updateNewSkipBlock E S None proposed1 rnd
         in (S', after_propagation (startPropagation E S' proposed')
                   (ProposedSkipBlockReply None proposed')))
      else
        (case S latest of
           None \<Rightarrow> (S, Failed LatestNotFound)
         | Some prev \<Rightarrow>
             (let proposed1 = SetCommon proposed
                    ((GetCommon proposed)\<lparr>VerifierId := VerifierId (GetCommon prev)\<rparr>)
              in if verifyNewSkipBlock prev proposed1 then
                   (let (S', prev', proposed') =
                          updateNewSkipBlock E S (Some (latest, prev)) proposed1 rnd
                    in (S', after_propagation (startPropagation E S' proposed')
                              (ProposedSkipBlockReply prev' proposed')))
                 else (S, Failed VerificationFailed))))"

text \<open>
  The argument \<open>proposed\<close> is an interface value and may be nil. A nil value makes
  \<^verbatim>\<open>proposed.GetCommon()\<close> panic: at once when \<open>latest\<close> is empty, and after the
  lookup of \<open>latest\<close> otherwise; nothing is stored. \<open>ProposeSkipBlock\<close> above is
  the function on a block; this is the function on every value it can be called
  with.
\<close>

definition ProposeSkipBlock_nilable :: "env \<Rightarrow> SkipBlocks \<Rightarrow> SkipBlockID \<Rightarrow> SkipBlock option
    \<Rightarrow> bytes \<Rightarrow> SkipBlocks \<times> ProposedSkipBlockReply outcome" where
  "ProposeSkipBlock_nilable E S latest proposed rnd =
     (case proposed of
        Some block \<Rightarrow> ProposeSkipBlock E S latest block rnd
      | None \<Rightarrow>
          (if latest = [] then (S, Panicked)
           else case S latest of
             None \<Rightarrow> (S, Failed LatestNotFound)
           | Some prev \<Rightarrow> (S, Panicked)))"

text \<open>
  \<^verbatim>\<open>GetUpdateChain\<close>: from the named block, follow \<^verbatim>\<open>ForwardLink[0]\<close> while the
  block has a forward link. The loop has no bound of its own (links may form a
  cycle), so not returning is the value \<open>None\<close>. The links of a block are values
  here; a nil pointer among them, on which the Go code would panic, is not modelled.
\<close>

partial_function (option) GetUpdateChain_loop :: "SkipBlocks \<Rightarrow> SkipBlock \<Rightarrow> SkipBlock list
    \<Rightarrow> (error + SkipBlock list) option" where
  "GetUpdateChain_loop S block blocks =
     (case ForwardLink (GetCommon block) of
        [] \<Rightarrow> Some (Inr blocks)
      | link # _ \<Rightarrow>
          (case S (LinkHash link) of
             None \<Rightarrow> Some (Inl MissingForwardBlock)
           | Some block' \<Rightarrow> GetUpdateChain_loop S block' (blocks @ [block'])))"

definition GetUpdateChain :: "SkipBlocks \<Rightarrow> SkipBlockID \<Rightarrow> (error + SkipBlock list) option" where
  "GetUpdateChain S u =
     (case S u of
        None \<Rightarrow> Some (Inl LatestSkipblockNotFound)
      | Some block \<Rightarrow> GetUpdateChain_loop S block [block])"

text \<open>A sequence of calls of \<^verbatim>\<open>ProposeSkipBlock\<close>, each on the store the last left.\<close>

fun ProposeSkipBlock_calls :: "env \<Rightarrow> SkipBlocks \<Rightarrow> (SkipBlockID \<times> SkipBlock \<times> bytes) list
    \<Rightarrow> SkipBlocks" where
  "ProposeSkipBlock_calls E S [] = S"
| "ProposeSkipBlock_calls E S ((latest, proposed, rnd) # cs) =
     ProposeSkipBlock_calls E (fst (ProposeSkipBlock E S latest proposed rnd)) cs"

section \<open>What the specification asks of the skipchain\<close>

text \<open>
  The specification's \<open>get-update-chain\<close>, in its words: at a block choose
  \<open>forwardlinks[h]\<close> for the largest \<open>h\<close> such that the link exists and its
  signature is verifiable. Whether a link's signature verifies is a parameter.
\<close>

definition spec_best_link :: "(BlockLink \<Rightarrow> bool) \<Rightarrow> BlockLink list \<Rightarrow> BlockLink option" where
  "spec_best_link verifiable links =
     (case filter verifiable links of [] \<Rightarrow> None | l # ls \<Rightarrow> Some (last (l # ls)))"

partial_function (option) spec_update_chain_loop :: "(BlockLink \<Rightarrow> bool) \<Rightarrow> SkipBlocks
    \<Rightarrow> SkipBlock \<Rightarrow> SkipBlock list \<Rightarrow> (error + SkipBlock list) option" where
  "spec_update_chain_loop verifiable S block blocks =
     (case spec_best_link verifiable (ForwardLink (GetCommon block)) of
        None \<Rightarrow> Some (Inr blocks)
      | Some link \<Rightarrow>
          (case S (LinkHash link) of
             None \<Rightarrow> Some (Inl MissingForwardBlock)
           | Some block' \<Rightarrow> spec_update_chain_loop verifiable S block' (blocks @ [block'])))"

definition spec_update_chain :: "(BlockLink \<Rightarrow> bool) \<Rightarrow> SkipBlocks \<Rightarrow> SkipBlockID
    \<Rightarrow> (error + SkipBlock list) option" where
  "spec_update_chain verifiable S u =
     (case S u of
        None \<Rightarrow> Some (Inl LatestSkipblockNotFound)
      | Some block \<Rightarrow> spec_update_chain_loop verifiable S block [block])"

text \<open>
  The specification's height of a new block: the largest \<open>h\<close> such that the index
  is divisible by \<open>base ^ h\<close>, searched downwards from the index itself.
\<close>

fun spec_height_upto :: "nat \<Rightarrow> nat \<Rightarrow> nat \<Rightarrow> nat" where
  "spec_height_upto base i 0 = 0"
| "spec_height_upto base i (Suc h) =
     (if base ^ Suc h dvd i then Suc h else spec_height_upto base i h)"

definition spec_height :: "nat \<Rightarrow> nat \<Rightarrow> nat" where
  "spec_height base i = spec_height_upto base i i"

text \<open>
  \<open>link0_path S b bs\<close>: \<open>bs\<close> are the blocks met from \<open>b\<close> by following
  \<open>ForwardLink[0]\<close> in the store \<open>S\<close>, down to a block without forward links.
\<close>

fun link0_path :: "SkipBlocks \<Rightarrow> SkipBlock \<Rightarrow> SkipBlock list \<Rightarrow> bool" where
  "link0_path S b [] \<longleftrightarrow> ForwardLink (GetCommon b) = []"
| "link0_path S b (b' # bs) \<longleftrightarrow>
     (case ForwardLink (GetCommon b) of
        [] \<Rightarrow> False
      | link # _ \<Rightarrow> S (LinkHash link) = Some b' \<and> link0_path S b' bs)"

section \<open>A concrete environment for examples\<close>

text \<open>
  A digest, a fresh link and a network that delivers, to evaluate the service on
  concrete blocks: the digest of a block is its index byte followed by its parent
  id.
\<close>

definition example_hashOf :: "SkipBlock \<Rightarrow> SkipBlockID" where
  "example_hashOf b = ucast (Index (GetCommon b)) # ParentBlock (GetCommon b)"

definition example_env :: env where
  "example_env = \<lparr>hashOf = example_hashOf,
                   NewBlockLink = \<lparr>LinkHash = [], Signature = []\<rparr>,
                   sendOk = (\<lambda>e. True)\<rparr>"

text \<open>A data block as a client proposes it: index 0, no links, the given parent id.\<close>

definition example_block :: "SkipBlockID \<Rightarrow> SkipBlock" where
  "example_block parent =
     SkipBlockData \<lparr>Index = 0, Height = 0, BackLink = [], ForwardLink = [],
                    VerifierId = VerifyNone, ParentBlock = parent, Hash = []\<rparr> []"

text \<open>A stored block of the given index with forward links to the given ids.\<close>

definition linked_block :: "64 word \<Rightarrow> SkipBlockID list \<Rightarrow> SkipBlock" where
  "linked_block i links =
     SkipBlockData \<lparr>Index = i, Height = 1, BackLink = [],
                    ForwardLink = map (\<lambda>h. \<lparr>LinkHash = h, Signature = []\<rparr>) links,
                    VerifierId = VerifyNone, ParentBlock = [], Hash = [ucast i]\<rparr> []"

text \<open>Three blocks, the first with a second-level forward link that skips the middle one.\<close>

definition two_level_store :: SkipBlocks where
  "two_level_store = [[0] \<mapsto> linked_block 0 [[1], [2]],
                      [1] \<mapsto> linked_block 1 [[2]],
                      [2] \<mapsto> linked_block 2 []]"

text \<open>The store after a genesis block and two blocks proposed on top of it.\<close>

definition three_blocks :: SkipBlocks where
  "three_blocks = ProposeSkipBlock_calls example_env Map.empty
     [([], example_block [], []), ([1], example_block [], []), ([2], example_block [], [])]"

section \<open>The genesis block as stored\<close>

text \<open>
  The block that \<open>ProposeSkipBlock\<close> stores for an empty \<open>latest\<close>: the verifier
  set to \<open>VerifyNone\<close>, then the fields that \<open>updateNewSkipBlock\<close> assigns, then
  the hash.
\<close>

definition genesis_block :: "env \<Rightarrow> SkipBlock \<Rightarrow> bytes \<Rightarrow> SkipBlock" where
  "genesis_block E proposed rnd =
     fst (updateHash E (SetCommon proposed
       ((GetCommon proposed)\<lparr>VerifierId := VerifyNone, Height := 1,
          Index := Index (GetCommon proposed) + 1, BackLink := [random_backlink rnd]\<rparr>)))"

section \<open>Stores reached by proposals\<close>

text \<open>
  \<open>keys_are_hashes E S\<close>: every block of the store is stored under its hash, which
  is also what its hash field holds.
\<close>

definition keys_are_hashes :: "env \<Rightarrow> SkipBlocks \<Rightarrow> bool" where
  "keys_are_hashes E S \<longleftrightarrow>
     (\<forall>k b. S k = Some b \<longrightarrow> Hash (GetCommon b) = k \<and> snd (updateHash E b) = k)"

text \<open>
  The store after a genesis block, and the store after two blocks were then proposed
  on that same genesis block, with the reply to the first of the two.
\<close>

definition one_block :: SkipBlocks where
  "one_block = ProposeSkipBlock_calls example_env Map.empty [([], example_block [], [])]"

definition forked :: SkipBlocks where
  "forked = ProposeSkipBlock_calls example_env Map.empty
     [([], example_block [], []), ([1], example_block [7], []), ([1], example_block [8], [])]"

definition fork_reply :: ProposedSkipBlockReply where
  "fork_reply = ProposedSkipBlockReply
     (Some (SkipBlockData \<lparr>Index = 1, Height = 1, BackLink = [replicate 32 0],
            ForwardLink = [\<lparr>LinkHash = [2, 7], Signature = []\<rparr>], VerifierId = VerifyNone,
            ParentBlock = [], Hash = [1]\<rparr> []))
     (SkipBlockData \<lparr>Index = 2, Height = 1, BackLink = [[1]],
            ForwardLink = [], VerifierId = VerifyNone, ParentBlock = [7], Hash = [2, 7]\<rparr> [])"

section \<open>The transaction executor\<close>

text \<open>
  Modelled from the spec: \<^verbatim>\<open>createStateChanges\<close>, the instruction types and the
  contract registry are not among the sources (only tests that call them and the
  test contracts are). The definitions follow the spec's section on the transaction
  executor. An instruction carries its instance id, a pair of darc id and sub id, and
  is a spawn, an invoke or a delete. A contract is a function of a read-only view of
  the collection, the instruction and the coins passed in; it returns state changes
  and coins, or an error, or it panics. The check of an instruction against its darc
  is a parameter.
\<close>

datatype InstrAction = Spawn bytes "bytes list" | Invoke bytes "bytes list" | Delete

record Instruction =
  InstDarcID :: bytes
  InstSubID :: bytes
  Nonce :: bytes
  Action :: InstrAction
  Signatures :: "bytes list"

definition instance_key :: "Instruction \<Rightarrow> bytes" where
  "instance_key inst = InstDarcID inst @ InstSubID inst"

type_synonym ClientTransaction = "Instruction list"

type_synonym Coin = "bytes \<times> nat"

datatype contract_result = ContractOk "StateChange list" "Coin list" | ContractErr | ContractPanic

type_synonym contract = "collection \<Rightarrow> Instruction \<Rightarrow> Coin list \<Rightarrow> contract_result"

record executor =
  registry :: "bytes \<rightharpoonup> contract"
  darc_ok :: "collection \<Rightarrow> Instruction \<Rightarrow> bool"

datatype rejection = DarcRefused | NoContract | ContractFailed | ContractPanicked | ChangeRefused

text \<open>
  The contract of an instruction: for a spawn the one named in the instruction, for
  an invoke or a delete the one named by the instance's current contract id.
\<close>

definition contract_of :: "executor \<Rightarrow> collection \<Rightarrow> Instruction \<Rightarrow> contract option" where
  "contract_of X snap inst =
     (case Action inst of
        Spawn cid args \<Rightarrow> registry X cid
      | _ \<Rightarrow>
          (case snap (instance_key inst) of
             None \<Rightarrow> None
           | Some (v, cid, did) \<Rightarrow> registry X cid))"

text \<open>
  The instructions of one transaction in order: look the contract up, invoke it,
  apply its state changes to the snapshot tentatively, pass its coins on. The first
  step that fails rejects the transaction; a panic of the contract is such a failure.
\<close>

fun exec_instructions :: "executor \<Rightarrow> collection \<Rightarrow> Coin list \<Rightarrow> Instruction list
    \<Rightarrow> rejection + collection \<times> StateChange list" where
  "exec_instructions X snap coins [] = Inr (snap, [])"
| "exec_instructions X snap coins (inst # insts) =
     (case contract_of X snap inst of
        None \<Rightarrow> Inl NoContract
      | Some f \<Rightarrow>
          (case f snap inst coins of
             ContractPanic \<Rightarrow> Inl ContractPanicked
           | ContractErr \<Rightarrow> Inl ContractFailed
           | ContractOk scs coins' \<Rightarrow>
               (case storeAllInColl snap scs of
                  Inl e \<Rightarrow> Inl ChangeRefused
                | Inr snap' \<Rightarrow>
                    (case exec_instructions X snap' coins' insts of
                       Inl r \<Rightarrow> Inl r
                     | Inr (snap'', scs') \<Rightarrow> Inr (snap'', scs @ scs')))))"

definition exec_tx :: "executor \<Rightarrow> collection \<Rightarrow> ClientTransaction
    \<Rightarrow> rejection + collection \<times> StateChange list" where
  "exec_tx X snap tx =
     (if list_all (darc_ok X snap) tx then exec_instructions X snap [] tx else Inl DarcRefused)"

record exec_result =
  accepted :: "ClientTransaction list"
  rejected :: "ClientTransaction list"
  changes :: "StateChange list"
  snapshot :: collection

text \<open>
  The transactions in the caller's order. A rejected transaction leaves the snapshot
  as it was at its start and the executor continues with the next one.
\<close>

fun createStateChanges :: "executor \<Rightarrow> collection \<Rightarrow> ClientTransaction list \<Rightarrow> exec_result" where
  "createStateChanges X snap [] =
     \<lparr>accepted = [], rejected = [], changes = [], snapshot = snap\<rparr>"
| "createStateChanges X snap (tx # txs) =
     (case exec_tx X snap tx of
        Inl r \<Rightarrow>
          (let res = createStateChanges X snap txs in res\<lparr>rejected := tx # rejected res\<rparr>)
      | Inr (snap', scs) \<Rightarrow>
          (let res = createStateChanges X snap' txs
           in res\<lparr>accepted := tx # accepted res, changes := scs @ changes res\<rparr>))"

section \<open>The test contracts\<close>

text \<open>
  The three contracts of the service's tests. \<^verbatim>\<open>dummyContractFunc\<close> reads
  \<^verbatim>\<open>inst.Spawn.Args[0]\<close>, which panics for an instruction that is no spawn or has
  no argument, and creates the instance with that value.
\<close>

definition panicContractFunc :: contract where
  "panicContractFunc cdb inst c = ContractPanic"

definition invalidContractFunc :: contract where
  "invalidContractFunc cdb inst c = ContractErr"

definition dummyContractFunc :: contract where
  "dummyContractFunc cdb inst c =
     (case Action inst of
        Spawn cid (arg # args) \<Rightarrow>
          ContractOk [\<lparr>StateAction = Create, InstanceID = instance_key inst, ContractID = cid,
                        DarcID = InstDarcID inst, Value = arg\<rparr>] []
      | _ \<Rightarrow> ContractPanic)"

definition dummyKind :: bytes where "dummyKind = [100, 117, 109, 109, 121]"

definition invalidKind :: bytes where "invalidKind = [105, 110, 118, 97, 108, 105, 100]"

definition panicKind :: bytes where "panicKind = [112, 97, 110, 105, 99]"

definition test_executor :: executor where
  "test_executor =
     \<lparr>registry = [dummyKind \<mapsto> dummyContractFunc, invalidKind \<mapsto> invalidContractFunc,
                   panicKind \<mapsto> panicContractFunc],
      darc_ok = (\<lambda>snap inst. True)\<rparr>"

text \<open>\<^verbatim>\<open>createOneClientTx\<close>: one spawn of the given kind with one argument.\<close>

definition createOneClientTx :: "bytes \<Rightarrow> bytes \<Rightarrow> bytes \<Rightarrow> bytes \<Rightarrow> ClientTransaction" where
  "createOneClientTx dID sub kind v =
     [\<lparr>InstDarcID = dID, InstSubID = sub, Nonce = [], Action = Spawn kind [v],
        Signatures = []\<rparr>]"

section \<open>Darc evolution\<close>







section \<open>Examples for the executor and for darc evolution\<close>

text \<open>The two transactions sent after the panicking one in the test of invalid contracts.\<close>

definition test_batch :: "ClientTransaction list" where
  "test_batch = [createOneClientTx [1] [11] invalidKind [97],
                 createOneClientTx [1] [12] dummyKind [98]]"







section \<open>Invariant of the tryHash loop\<close>

text \<open>
  \<open>undoes c ds c0\<close>: the deferred keys \<open>ds\<close> are distinct, all present in \<open>c\<close>,
  all absent from \<open>c0\<close>, and \<open>c\<close> agrees with \<open>c0\<close> on every other key.
\<close>

definition undoes :: "collection \<Rightarrow> bytes list \<Rightarrow> collection \<Rightarrow> bool" where
  "undoes c ds c0 \<longleftrightarrow>
     distinct ds \<and> (\<forall>k. if k \<in> set ds then c k \<noteq> None \<and> c0 k = None else c k = c0 k)"

section \<open>tryHash leaves no residue\<close>

lemma undoes_Nil: "undoes c [] c0 \<longleftrightarrow> c = c0"
  by (auto simp: undoes_def)

lemma undoes_present: "undoes c ds c0 \<Longrightarrow> k \<in> set ds \<Longrightarrow> c k \<noteq> None \<and> c0 k = None"
  unfolding undoes_def by metis

lemma undoes_other: "undoes c ds c0 \<Longrightarrow> k \<notin> set ds \<Longrightarrow> c k = c0 k"
  unfolding undoes_def by metis

lemma undoes_distinct: "undoes c ds c0 \<Longrightarrow> distinct ds"
  unfolding undoes_def by simp

lemma undoes_Add:
  assumes u: "undoes c ds c0" and add: "coll_Add c k v cid did = Inr c'"
  shows "undoes c' (k # ds) c0"
proof -
  have absent: "c k = None"
    using add by (cases "c k") (simp_all add: coll_Add_def)
  have c': "c' = c(k \<mapsto> (v, cid, did))"
    using add absent by (simp add: coll_Add_def)
  have fresh: "k \<notin> set ds"
    using undoes_present [OF u, of k] absent by blast
  have c0k: "c0 k = None"
    using undoes_other [OF u fresh] absent by simp
  show ?thesis
    unfolding undoes_def
  proof (intro conjI allI)
    show "distinct (k # ds)"
      using fresh undoes_distinct [OF u] by simp
    fix j
    show "if j \<in> set (k # ds) then c' j \<noteq> None \<and> c0 j = None else c' j = c0 j"
    proof (cases "j = k")
      case True
      then show ?thesis by (simp add: c' c0k)
    next
      case False
      then show ?thesis
        using undoes_present [OF u, of j] undoes_other [OF u, of j]
        by (simp add: c')
    qed
  qed
qed

lemma undoes_Remove:
  assumes u: "undoes c (k # ds) c0"
  shows "\<exists>c'. coll_Remove c k = Inr c' \<and> undoes c' ds c0"
proof -
  have present: "c k \<noteq> None" and c0k: "c0 k = None"
    using undoes_present [OF u, of k] by simp_all
  have fresh: "k \<notin> set ds" and dist: "distinct ds"
    using undoes_distinct [OF u] by simp_all
  have "undoes (c(k := None)) ds c0"
    unfolding undoes_def
  proof (intro conjI allI)
    show "distinct ds" by (rule dist)
    fix j
    show "if j \<in> set ds then (c(k := None)) j \<noteq> None \<and> c0 j = None
          else (c(k := None)) j = c0 j"
    proof (cases "j = k")
      case True
      then show ?thesis by (simp add: fresh c0k)
    next
      case False
      then show ?thesis
        using undoes_present [OF u, of j] undoes_other [OF u, of j]
        by simp
    qed
  qed
  then show ?thesis
    using present by (simp add: coll_Remove_def)
qed

lemma tryHash_loop_undoes:
  "undoes c ds c0 \<Longrightarrow> tryHash_loop c ts ds = (c', ds', e) \<Longrightarrow> undoes c' ds' c0"
proof (induction ts arbitrary: c ds)
  case Nil
  then show ?case by simp
next
  case (Cons sc ts)
  show ?case
  proof (cases "coll_Add c (InstanceID sc) (Value sc) (ContractID sc) (DarcID sc)")
    case (Inl err)
    with Cons.prems show ?thesis by simp
  next
    case (Inr c1)
    with Cons.prems have "tryHash_loop c1 ts (InstanceID sc # ds) = (c', ds', e)"
      by simp
    moreover have "undoes c1 (InstanceID sc # ds) c0"
      using Cons.prems(1) Inr by (rule undoes_Add)
    ultimately show ?thesis by (rule Cons.IH [rotated])
  qed
qed

lemma tryHash_deferred_undoes:
  "undoes c ds c0 \<Longrightarrow> tryHash_deferred c ds r = (c0, r)"
proof (induction ds arbitrary: c)
  case Nil
  then show ?case by (simp add: undoes_Nil)
next
  case (Cons k ds)
  from undoes_Remove [OF Cons.prems] obtain c1
    where "coll_Remove c k = Inr c1" and "undoes c1 ds c0" by blast
  then show ?case using Cons.IH by simp
qed

lemma tryHash_loop_result:
  "tryHash_loop c ts [] = (c', ds, e) \<Longrightarrow> tryHash_deferred c' ds r = (c, r)"
  by (rule tryHash_deferred_undoes, rule tryHash_loop_undoes [of c "[]" c ts])
     (simp_all add: undoes_Nil)

text \<open>
  Claim C1. For every collection \<open>c\<close> and every list of state changes \<open>ts\<close>, after
  \<open>tryHash\<close> returns, with a root hash or with an error, the collection has the
  entries it had before the call, and so the root hash it had before the call.
\<close>

theorem tryHash_no_residue:
  "fst (tryHash H c ts) = c \<and> GetRoot H (fst (tryHash H c ts)) = GetRoot H c"
proof -
  obtain c' ds e where loop: "tryHash_loop c ts [] = (c', ds, e)"
    by (cases "tryHash_loop c ts []") auto
  have "fst (tryHash H c ts) = c"
    using loop tryHash_loop_result [OF loop]
    by (cases e) (simp_all add: tryHash_def)
  then show ?thesis by simp
qed

section \<open>tryHash against the committing path\<close>

text \<open>
  Claim C3. The claim says that for changes with actions Create, Update and Remove
  that are individually applicable, \<open>tryHash\<close> returns the root the collection
  would have after applying each change in order, Create as add, Update as set,
  Remove as remove. The code calls \<open>Add\<close> for every change and never reads the
  action. With the instance \<open>[1]\<close> stored, the single change ``Update \<open>[1]\<close> to
  value \<open>[8]\<close>'' is applicable (\<open>storeInColl\<close> accepts it and sets the value),
  yet \<open>tryHash\<close> returns the key-collision error of \<open>Add\<close> and no root.
\<close>

theorem tryHash_ignores_StateAction:
  "storeInColl [[1] \<mapsto> ([7], [2], [3])]
      \<lparr>StateAction = Update, InstanceID = [1], ContractID = [2], DarcID = [3], Value = [8]\<rparr>
     = Inr [[1] \<mapsto> ([8], [2], [3])]
   \<and> snd (tryHash H [[1] \<mapsto> ([7], [2], [3])]
      [\<lparr>StateAction = Update, InstanceID = [1], ContractID = [2], DarcID = [3], Value = [8]\<rparr>])
     = Inl KeyCollision"
  by (simp add: tryHash_def coll_Add_def coll_Set_def)

text \<open>
  What does hold: for changes that are all Create and that the committing path
  accepts one after the other, \<open>tryHash\<close> returns the root of the collection with
  the changes applied.
\<close>

lemma tryHash_loop_Create:
  "list_all (\<lambda>sc. StateAction sc = Create) ts \<Longrightarrow> storeAllInColl c ts = Inr c'
     \<Longrightarrow> \<exists>ds'. tryHash_loop c ts ds = (c', ds', None)"
proof (induction ts arbitrary: c ds)
  case Nil
  then show ?case by simp
next
  case (Cons sc ts)
  from Cons.prems obtain c1 where
    add: "coll_Add c (InstanceID sc) (Value sc) (ContractID sc) (DarcID sc) = Inr c1"
    and rest: "storeAllInColl c1 ts = Inr c'"
    by (auto split: sum.splits)
  from Cons.prems(1) have "list_all (\<lambda>sc. StateAction sc = Create) ts" by simp
  from Cons.IH [OF this rest, of "InstanceID sc # ds"] add show ?case by simp
qed

lemma tryHash_Create_root:
  assumes "list_all (\<lambda>sc. StateAction sc = Create) ts" and "storeAllInColl c ts = Inr c'"
  shows "tryHash H c ts = (c, Inr (GetRoot H c'))"
proof -
  from tryHash_loop_Create [OF assms, of "[]"] obtain ds'
    where loop: "tryHash_loop c ts [] = (c', ds', None)" by blast
  from tryHash_loop_result [OF loop] loop show ?thesis
    by (simp add: tryHash_def)
qed

section \<open>Store when the durable write fails\<close>

lemma db_Update_failure_keeps_db:
  "db_Update d fn = (d', Some e) \<Longrightarrow> d' = d"
  by (auto simp: db_Update_def split: sum.splits)

text \<open>
  Claim C2, as the code has it. When \<open>storeInColl\<close> has changed the in-memory
  collection to \<open>c'\<close> and the store-level transaction then fails with \<open>e\<close>,
  \<open>Store\<close> returns \<open>e\<close>, the durable store is as before (the transaction is
  atomic), and the in-memory collection is \<open>c'\<close>: the change is kept, not rolled
  back.
\<close>

theorem Store_failure_keeps_mutation:
  assumes "storeInColl (coll c) sc = Inr c'"
    and "snd (db_Update (db c) (Store_tx sc)) = Some e"
  shows "Store c sc = (c\<lparr>coll := c'\<rparr>, Some e)"
proof -
  obtain d' where upd: "db_Update (db c) (Store_tx sc) = (d', Some e)"
    using assms(2) by (cases "db_Update (db c) (Store_tx sc)") auto
  then have "d' = db c" by (rule db_Update_failure_keeps_db)
  with upd assms(1) show ?thesis
    by (simp add: Store_def)
qed

theorem Store_failure_keeps_mutation_witness:
  "Store \<lparr>db = \<lparr>kv = Map.empty, refuses_writes = True\<rparr>, bucketName = [], coll = Map.empty, scID = []\<rparr>
      \<lparr>StateAction = Create, InstanceID = [1], ContractID = [2], DarcID = [3], Value = [7]\<rparr>
   = (\<lparr>db = \<lparr>kv = Map.empty, refuses_writes = True\<rparr>, bucketName = [],
        coll = [[1] \<mapsto> ([7], [2], [3])], scID = []\<rparr>, Some StoreFault)"
  using Store_failure_keeps_mutation
    [of "\<lparr>db = \<lparr>kv = Map.empty, refuses_writes = True\<rparr>, bucketName = [], coll = Map.empty, scID = []\<rparr>"
        "\<lparr>StateAction = Create, InstanceID = [1], ContractID = [2], DarcID = [3], Value = [7]\<rparr>"
        "[[1] \<mapsto> ([7], [2], [3])]" StoreFault]
  by (simp add: coll_Add_def db_Update_def Store_tx_def Store_tx_put_def bucket_Put_def)

text \<open>
  The claim as stated fails: with a store that refuses writes, creating instance
  \<open>[1]\<close> in an empty collection returns the store's error and leaves the instance
  in the in-memory collection.
\<close>

theorem Store_no_rollback_counterexample:
  "snd (Store \<lparr>db = \<lparr>kv = Map.empty, refuses_writes = True\<rparr>, bucketName = [], coll = Map.empty, scID = []\<rparr>
         \<lparr>StateAction = Create, InstanceID = [1], ContractID = [2], DarcID = [3], Value = [7]\<rparr>)
     = Some StoreFault
   \<and> coll (fst (Store \<lparr>db = \<lparr>kv = Map.empty, refuses_writes = True\<rparr>, bucketName = [], coll = Map.empty, scID = []\<rparr>
         \<lparr>StateAction = Create, InstanceID = [1], ContractID = [2], DarcID = [3], Value = [7]\<rparr>)) [1]
     \<noteq> (Map.empty :: collection) [1]"
  by (simp add: Store_def coll_Add_def db_Update_def Store_tx_def Store_tx_put_def bucket_Put_def)

section \<open>Proposing blocks\<close>

lemmas example_eval = ProposeSkipBlock_def updateNewSkipBlock_def updateHash_def hash_input_def
  example_env_def example_hashOf_def example_block_def startPropagation_def
  after_propagation_def random_backlink_def verifyNewSkipBlock_def entity_list_send_def Let_def

lemma GetCommon_SetCommon [simp]: "GetCommon (SetCommon b c) = c"
  by (cases b) simp_all

lemma SetCommon_SetCommon [simp]: "SetCommon (SetCommon b c) c' = SetCommon b c'"
  by (cases b) simp_all

lemma after_propagation_Returned:
  "after_propagation p r = Returned r' \<Longrightarrow> r' = r"
  by (cases p) (simp_all add: after_propagation_def)

lemma after_propagation_cases:
  "after_propagation p r = Panicked \<or> after_propagation p r = Returned r"
  by (cases p) (simp_all add: after_propagation_def)

lemma ProposeSkipBlock_genesis:
  "ProposeSkipBlock E S [] proposed rnd =
     (S(Hash (GetCommon (genesis_block E proposed rnd)) \<mapsto> genesis_block E proposed rnd),
      after_propagation
        (startPropagation E
           (S(Hash (GetCommon (genesis_block E proposed rnd)) \<mapsto> genesis_block E proposed rnd))
           (genesis_block E proposed rnd))
        (ProposedSkipBlockReply None (genesis_block E proposed rnd)))"
  by (simp add: ProposeSkipBlock_def updateNewSkipBlock_def Let_def updateHash_def
      genesis_block_def)

lemma ProposeSkipBlock_nongenesis_reply:
  assumes "latest \<noteq> []"
    and "ProposeSkipBlock E S latest proposed rnd = (S', Returned reply)"
  shows "\<exists>prev prev'. S latest = Some prev \<and> Previous reply = Some prev'
       \<and> Height (GetCommon (Latest reply)) = 1
       \<and> Index (GetCommon (Latest reply)) = Index (GetCommon prev) + 1
       \<and> BackLink (GetCommon (Latest reply)) = [snd (updateHash E prev)]
       \<and> Hash (GetCommon prev') = snd (updateHash E prev)
       \<and> ForwardLink (GetCommon prev')
            = [(NewBlockLink E)\<lparr>LinkHash := Hash (GetCommon (Latest reply))\<rparr>]
       \<and> S' (Hash (GetCommon (Latest reply))) = Some (Latest reply)"
proof -
  from assms obtain prev where prev: "S latest = Some prev"
    by (cases "S latest") (auto simp: ProposeSkipBlock_def)
  show ?thesis
    using assms prev
    by (auto simp: ProposeSkipBlock_def updateNewSkipBlock_def Let_def updateHash_def
        split: if_splits dest!: after_propagation_Returned)
qed

text \<open>
  Claim C6, as the code has it. For every non-genesis proposal that returns a reply,
  the new block has height 1, its index is the index of the block stored under
  \<open>latest\<close> plus one, and it has the single back-link \<open>BackLink[0]\<close>, the hash of
  that block, which is also the hash of the reply's previous block. There is no
  base, no height above 1 and no higher back-link.
\<close>

theorem nongenesis_height_and_backlink:
  assumes "latest \<noteq> []"
    and "ProposeSkipBlock E S latest proposed rnd = (S', Returned reply)"
  shows "\<exists>prev prev'. S latest = Some prev \<and> Previous reply = Some prev'
       \<and> Height (GetCommon (Latest reply)) = 1
       \<and> Index (GetCommon (Latest reply)) = Index (GetCommon prev) + 1
       \<and> BackLink (GetCommon (Latest reply)) = [snd (updateHash E prev)]
       \<and> Hash (GetCommon prev') = snd (updateHash E prev)"
  using ProposeSkipBlock_nongenesis_reply [OF assms] by blast

lemma three_blocks_propose:
  "ProposeSkipBlock example_env three_blocks [3] (example_block []) []
     = (three_blocks
          ([3] \<mapsto> SkipBlockData \<lparr>Index = 3, Height = 1, BackLink = [[2]],
             ForwardLink = [\<lparr>LinkHash = [4], Signature = []\<rparr>], VerifierId = VerifyNone,
             ParentBlock = [], Hash = [3]\<rparr> [],
           [4] \<mapsto> SkipBlockData \<lparr>Index = 4, Height = 1, BackLink = [[3]],
             ForwardLink = [], VerifierId = VerifyNone, ParentBlock = [], Hash = [4]\<rparr> []),
        Returned (ProposedSkipBlockReply
         (Some (SkipBlockData \<lparr>Index = 3, Height = 1, BackLink = [[2]],
            ForwardLink = [\<lparr>LinkHash = [4], Signature = []\<rparr>], VerifierId = VerifyNone,
            ParentBlock = [], Hash = [3]\<rparr> []))
         (SkipBlockData \<lparr>Index = 4, Height = 1, BackLink = [[3]],
            ForwardLink = [], VerifierId = VerifyNone, ParentBlock = [], Hash = [4]\<rparr> [])))"
  by (simp add: three_blocks_def example_eval)

theorem nongenesis_height_and_backlink_witness:
  "\<exists>prev prev'. three_blocks [3] = Some prev
     \<and> Some (SkipBlockData \<lparr>Index = 3, Height = 1, BackLink = [[2]],
            ForwardLink = [\<lparr>LinkHash = [4], Signature = []\<rparr>], VerifierId = VerifyNone,
            ParentBlock = [], Hash = [3]\<rparr> []) = Some prev'
     \<and> (4 :: 64 word) = Index (GetCommon prev) + 1
     \<and> [[3]] = [snd (updateHash example_env prev)]
     \<and> Hash (GetCommon prev') = snd (updateHash example_env prev)"
  using nongenesis_height_and_backlink [OF _ three_blocks_propose]
  by simp

text \<open>
  The claim as stated fails. On the fourth block of a chain (index 4) the claim, with
  base 2, asks for height 2, the largest \<open>h\<close> with \<open>2 ^ h\<close> dividing 4, and so for
  two back-links; the code assigns height 1 and one back-link.
\<close>

theorem height_counterexample:
  "snd (ProposeSkipBlock example_env three_blocks [3] (example_block []) [])
     = Returned (ProposedSkipBlockReply
         (Some (SkipBlockData \<lparr>Index = 3, Height = 1, BackLink = [[2]],
            ForwardLink = [\<lparr>LinkHash = [4], Signature = []\<rparr>], VerifierId = VerifyNone,
            ParentBlock = [], Hash = [3]\<rparr> []))
         (SkipBlockData \<lparr>Index = 4, Height = 1, BackLink = [[3]],
            ForwardLink = [], VerifierId = VerifyNone, ParentBlock = [], Hash = [4]\<rparr> []))
   \<and> spec_height 2 4 = 2"
proof -
  have "spec_height 2 4 = 2" by code_simp
  then show ?thesis
    by (simp add: three_blocks_def example_eval)
qed

text \<open>
  Claim C7, as the code has it. For every genesis-block creation that returns a
  reply, the reply has no previous block, and the returned block has the index of
  the proposed block plus one (the code increments the index it was given), height 1
  and a single back-link of 32 bytes from the random source.
\<close>

theorem genesis_fields:
  assumes "ProposeSkipBlock E S [] proposed rnd = (S', Returned reply)"
  shows "Previous reply = None
       \<and> Index (GetCommon (Latest reply)) = Index (GetCommon proposed) + 1
       \<and> Height (GetCommon (Latest reply)) = 1
       \<and> BackLink (GetCommon (Latest reply)) = [random_backlink rnd]
       \<and> length (random_backlink rnd) = 32"
proof -
  have len: "length (random_backlink rnd) = 32"
    by (simp add: random_backlink_def)
  show ?thesis
    using assms len
    by (auto simp: ProposeSkipBlock_def updateNewSkipBlock_def Let_def updateHash_def
        dest!: after_propagation_Returned)
qed

theorem genesis_fields_witness:
  "Index (GetCommon (genesis_block example_env (example_block []) [5, 6])) = 1
   \<and> Height (GetCommon (genesis_block example_env (example_block []) [5, 6])) = 1
   \<and> BackLink (GetCommon (genesis_block example_env (example_block []) [5, 6]))
       = [[5, 6] @ replicate 30 0]"
proof -
  have "ProposeSkipBlock example_env Map.empty [] (example_block []) [5, 6]
      = ([[1] \<mapsto> genesis_block example_env (example_block []) [5, 6]],
         Returned (ProposedSkipBlockReply None
           (genesis_block example_env (example_block []) [5, 6])))"
    by (simp add: example_eval genesis_block_def)
  from genesis_fields [OF this] show ?thesis
    by (simp add: example_block_def random_backlink_def)
qed

text \<open>
  The claim as stated fails: a proposed block with index 0 comes back with index 1.
\<close>

theorem genesis_index_counterexample:
  "snd (ProposeSkipBlock example_env Map.empty [] (example_block []) [5, 6])
     = Returned (ProposedSkipBlockReply None
         (SkipBlockData \<lparr>Index = 1, Height = 1, BackLink = [[5, 6] @ replicate 30 0],
            ForwardLink = [], VerifierId = VerifyNone, ParentBlock = [], Hash = [1]\<rparr> []))"
  by (simp add: example_eval)

lemma genesis_block_VerifyNone:
  "VerifierId (GetCommon (genesis_block E proposed rnd)) = VerifyNone"
  by (simp add: genesis_block_def updateHash_def)

lemma genesis_returns_unless_panic:
  assumes "snd (ProposeSkipBlock E S [] proposed rnd) \<noteq> Panicked"
  shows "ProposeSkipBlock E S [] proposed rnd
           = (S(Hash (GetCommon (genesis_block E proposed rnd)) \<mapsto> genesis_block E proposed rnd),
              Returned (ProposedSkipBlockReply None (genesis_block E proposed rnd)))"
  using assms after_propagation_cases
    [of "startPropagation E
           (S(Hash (GetCommon (genesis_block E proposed rnd)) \<mapsto> genesis_block E proposed rnd))
           (genesis_block E proposed rnd)"
        "ProposedSkipBlockReply None (genesis_block E proposed rnd)"]
  by (auto simp: ProposeSkipBlock_genesis)

text \<open>
  Claim C10. The claim says that every call with a nil or empty \<open>latest\<close>
  succeeds: the block is stored as a genesis block with the verifier \<open>VerifyNone\<close>
  and a reply without previous block is returned, also when blocks are stored
  already. The code has no error return on this path, but it does not always
  return: in the store \<open>three_blocks\<close>, which holds the data block \<open>[1]\<close>,
  proposing with an empty \<open>latest\<close> a data block whose parent is \<open>[1]\<close> stores
  the block under its hash \<open>[1, 1]\<close> and then panics in \<open>startPropagation\<close>, on
  the unchecked type assertion that the parent is a roster block. A nil proposed
  block panics as well, before anything is stored.
\<close>

theorem ProposeSkipBlock_genesis_panics:
  "snd (ProposeSkipBlock example_env three_blocks [] (example_block [1]) []) = Panicked
   \<and> three_blocks [1, 1] = None
   \<and> fst (ProposeSkipBlock example_env three_blocks [] (example_block [1]) []) [1, 1]
     = Some (SkipBlockData \<lparr>Index = 1, Height = 1, BackLink = [replicate 32 0],
         ForwardLink = [], VerifierId = VerifyNone, ParentBlock = [1], Hash = [1, 1]\<rparr> [])
   \<and> ProposeSkipBlock_nilable example_env three_blocks [] None [] = (three_blocks, Panicked)"
  by (simp add: three_blocks_def example_eval ProposeSkipBlock_nilable_def)

section \<open>GetUpdateChain\<close>

lemma GetUpdateChain_loop_link0:
  "link0_path S b bs \<Longrightarrow> GetUpdateChain_loop S b acc = Some (Inr (acc @ bs))"
proof (induction bs arbitrary: b acc)
  case Nil
  then show ?case by (subst GetUpdateChain_loop.simps) simp
next
  case (Cons b' bs)
  from Cons.prems obtain link links where
    links: "ForwardLink (GetCommon b) = link # links"
    and next_block: "S (LinkHash link) = Some b'" and rest: "link0_path S b' bs"
    by (cases "ForwardLink (GetCommon b)") auto
  have "GetUpdateChain_loop S b acc = GetUpdateChain_loop S b' (acc @ [b'])"
    by (subst GetUpdateChain_loop.simps) (simp add: links next_block)
  also have "\<dots> = Some (Inr ((acc @ [b']) @ bs))"
    using rest by (rule Cons.IH)
  finally show ?case by simp
qed

text \<open>
  Claim C5, as the code has it. For every stored block \<open>b\<close> from which following
  \<open>ForwardLink[0]\<close> block after block reaches a block without forward links,
  \<open>GetUpdateChain\<close> returns, and returns exactly that sequence of blocks, starting
  with \<open>b\<close>. Higher forward links are never followed and no signature is checked.
\<close>

theorem GetUpdateChain_follows_link0:
  assumes "S u = Some b" and "link0_path S b bs"
  shows "GetUpdateChain S u = Some (Inr (b # bs))"
  using assms GetUpdateChain_loop_link0 [of S b bs "[b]"]
  by (simp add: GetUpdateChain_def)

theorem GetUpdateChain_follows_link0_witness:
  "GetUpdateChain two_level_store [0]
     = Some (Inr [linked_block 0 [[1], [2]], linked_block 1 [[2]], linked_block 2 []])"
  using GetUpdateChain_follows_link0
    [of two_level_store "[0]" "linked_block 0 [[1], [2]]"
        "[linked_block 1 [[2]], linked_block 2 []]"]
  by (simp add: two_level_store_def linked_block_def)

text \<open>
  The claim as stated fails: where block 0 has a second forward link to block 2, the
  shortest sequence through the highest links is 0, 2; the code returns 0, 1, 2.
\<close>

theorem GetUpdateChain_not_highest_link_counterexample:
  "GetUpdateChain two_level_store [0]
     = Some (Inr [linked_block 0 [[1], [2]], linked_block 1 [[2]], linked_block 2 []])
   \<and> spec_update_chain (\<lambda>l. True) two_level_store [0]
     = Some (Inr [linked_block 0 [[1], [2]], linked_block 2 []])"
  by (simp add: GetUpdateChain_def spec_update_chain_def two_level_store_def linked_block_def
      GetUpdateChain_loop.simps spec_update_chain_loop.simps spec_best_link_def)

section \<open>Links between a block and its predecessor\<close>

lemma hash_input_SetCommon [simp]:
  "hash_input (SetCommon b c) = SetCommon b (c\<lparr>ForwardLink := [], Hash := []\<rparr>)"
  by (simp add: hash_input_def)

lemma SetCommon_GetCommon_upd:
  "hash_input b = SetCommon b ((GetCommon b)\<lparr>ForwardLink := [], Hash := []\<rparr>)"
  by (simp add: hash_input_def)

lemma keys_are_hashes_step:
  assumes "keys_are_hashes E S"
  shows "keys_are_hashes E (fst (ProposeSkipBlock E S latest proposed rnd))"
proof (cases "latest = []")
  case True
  then show ?thesis
    using assms
    by (auto simp: ProposeSkipBlock_genesis keys_are_hashes_def genesis_block_def updateHash_def)
next
  case False
  show ?thesis
  proof (cases "S latest")
    case None
    with False assms show ?thesis by (simp add: ProposeSkipBlock_def)
  next
    case (Some prev)
    from assms Some have h: "hashOf E (hash_input prev) = latest"
      by (auto simp: keys_are_hashes_def updateHash_def)
    show ?thesis
      using assms False Some h
      by (auto simp: ProposeSkipBlock_def updateNewSkipBlock_def Let_def updateHash_def
          keys_are_hashes_def SetCommon_GetCommon_upd)
  qed
qed

lemma keys_are_hashes_calls:
  "keys_are_hashes E S \<Longrightarrow> keys_are_hashes E (ProposeSkipBlock_calls E S cs)"
proof (induction cs arbitrary: S)
  case Nil
  then show ?case by simp
next
  case (Cons c cs)
  obtain latest proposed rnd where c: "c = (latest, proposed, rnd)"
    by (cases c) auto
  show ?case
    unfolding c using Cons.prems
    by (simp add: Cons.IH keys_are_hashes_step)
qed

lemma keys_are_hashes_empty: "keys_are_hashes E Map.empty"
  by (simp add: keys_are_hashes_def)

lemma stays_stored_step:
  assumes "S k \<noteq> None"
  shows "fst (ProposeSkipBlock E S latest proposed rnd) k \<noteq> None"
proof (cases "latest = []")
  case True
  then show ?thesis using assms by (simp add: ProposeSkipBlock_genesis)
next
  case False
  then show ?thesis
    using assms
    by (cases "S latest")
       (auto simp: ProposeSkipBlock_def updateNewSkipBlock_def Let_def updateHash_def)
qed

lemma stays_stored_calls:
  "S k \<noteq> None \<Longrightarrow> ProposeSkipBlock_calls E S cs k \<noteq> None"
proof (induction cs arbitrary: S)
  case Nil
  then show ?case by simp
next
  case (Cons c cs)
  obtain latest proposed rnd where c: "c = (latest, proposed, rnd)"
    by (cases c) auto
  show ?case
    unfolding c using Cons.prems
    by (simp add: Cons.IH stays_stored_step)
qed

lemma ProposeSkipBlock_nongenesis_store:
  assumes "latest \<noteq> []"
    and "S latest = Some prev"
    and "ProposeSkipBlock E S latest proposed rnd = (S', Returned reply)"
  shows "Previous reply = Some (SetCommon prev ((GetCommon prev)
            \<lparr>Hash := snd (updateHash E prev),
              ForwardLink := [(NewBlockLink E)\<lparr>LinkHash := Hash (GetCommon (Latest reply))\<rparr>]\<rparr>))
       \<and> S' = (S(latest \<mapsto> SetCommon prev ((GetCommon prev)
            \<lparr>Hash := snd (updateHash E prev),
              ForwardLink := [(NewBlockLink E)\<lparr>LinkHash := Hash (GetCommon (Latest reply))\<rparr>]\<rparr>)))
            (Hash (GetCommon (Latest reply)) \<mapsto> Latest reply)"
  using assms
  by (auto simp: ProposeSkipBlock_def updateNewSkipBlock_def Let_def updateHash_def
      split: if_splits dest!: after_propagation_Returned)

text \<open>
  Claim C8, as the code has it. In every store reached from the empty one by calls
  of \<open>ProposeSkipBlock\<close>, a non-genesis proposal that returns a reply changes the
  store in exactly two places. The new block \<open>b\<close> is stored under its hash, with
  the single back-link \<open>latest\<close>, the hash of the stored block \<open>p\<close> it was
  proposed on. The block stored under \<open>latest\<close> becomes \<open>p\<close> with its forward
  links replaced by the single link to \<open>b\<close>'s hash, as \<open>NewBlockLink\<close> made it,
  with no signature computed or checked; it is also the previous block of the reply.
  (Were the hash of \<open>b\<close> equal to \<open>latest\<close>, \<open>b\<close> would take that place.)
  After any further calls a block with the hash \<open>latest\<close> is still stored under
  \<open>latest\<close>. That its forward link still points to \<open>b\<close> is not promised: a later
  proposal on the same block replaces the link.
\<close>

theorem proposed_block_links:
  assumes reach: "S = ProposeSkipBlock_calls E Map.empty cs"
    and nongenesis: "latest \<noteq> []"
    and call: "ProposeSkipBlock E S latest proposed rnd = (S1, Returned reply)"
    and later: "S2 = ProposeSkipBlock_calls E S1 cs'"
  shows "\<exists>p p' q. S latest = Some p \<and> Hash (GetCommon p) = latest
       \<and> Previous reply = Some p'
       \<and> p' = SetCommon p ((GetCommon p)
            \<lparr>ForwardLink := [(NewBlockLink E)\<lparr>LinkHash := Hash (GetCommon (Latest reply))\<rparr>]\<rparr>)
       \<and> BackLink (GetCommon (Latest reply)) = [latest]
       \<and> ForwardLink (GetCommon p')
            = [(NewBlockLink E)\<lparr>LinkHash := Hash (GetCommon (Latest reply))\<rparr>]
       \<and> S1 = (S(latest \<mapsto> p'))(Hash (GetCommon (Latest reply)) \<mapsto> Latest reply)
       \<and> S1 (Hash (GetCommon (Latest reply))) = Some (Latest reply)
       \<and> S1 latest = Some (if Hash (GetCommon (Latest reply)) = latest then Latest reply else p')
       \<and> S2 latest = Some q \<and> Hash (GetCommon q) = latest"
proof -
  have inv: "keys_are_hashes E S"
    unfolding reach by (rule keys_are_hashes_calls [OF keys_are_hashes_empty])
  from nongenesis call obtain p where p: "S latest = Some p"
    by (cases "S latest") (auto simp: ProposeSkipBlock_def)
  from inv p have hp: "Hash (GetCommon p) = latest" and up: "snd (updateHash E p) = latest"
    by (auto simp: keys_are_hashes_def)
  define p' where "p' = SetCommon p ((GetCommon p)
      \<lparr>ForwardLink := [(NewBlockLink E)\<lparr>LinkHash := Hash (GetCommon (Latest reply))\<rparr>]\<rparr>)"
  have same: "SetCommon p ((GetCommon p)
            \<lparr>Hash := snd (updateHash E p),
              ForwardLink := [(NewBlockLink E)\<lparr>LinkHash := Hash (GetCommon (Latest reply))\<rparr>]\<rparr>)
        = p'"
  proof -
    have "(GetCommon p)\<lparr>Hash := latest\<rparr> = GetCommon p"
      by (simp add: hp [symmetric])
    then show ?thesis
      using up by (simp add: p'_def)
  qed
  from ProposeSkipBlock_nongenesis_store [OF nongenesis p call]
  have prev: "Previous reply = Some p'"
    and S1eq: "S1 = (S(latest \<mapsto> p'))(Hash (GetCommon (Latest reply)) \<mapsto> Latest reply)"
    unfolding same by simp_all
  from ProposeSkipBlock_nongenesis_reply [OF nongenesis call] p up
  have bl: "BackLink (GetCommon (Latest reply)) = [latest]"
    by auto
  have fl: "ForwardLink (GetCommon p')
       = [(NewBlockLink E)\<lparr>LinkHash := Hash (GetCommon (Latest reply))\<rparr>]"
    by (simp add: p'_def)
  have stored: "S1 (Hash (GetCommon (Latest reply))) = Some (Latest reply)"
    and stored_prev: "S1 latest
       = Some (if Hash (GetCommon (Latest reply)) = latest then Latest reply else p')"
    by (simp_all add: S1eq)
  have S1: "S1 = fst (ProposeSkipBlock E S latest proposed rnd)"
    using call by simp
  have inv2: "keys_are_hashes E S2"
    unfolding later S1
    by (intro keys_are_hashes_calls keys_are_hashes_step inv)
  have "S2 latest \<noteq> None"
    unfolding later S1
    by (intro stays_stored_calls stays_stored_step) (simp add: p)
  then obtain q where q: "S2 latest = Some q" by auto
  with inv2 have hq: "Hash (GetCommon q) = latest"
    by (auto simp: keys_are_hashes_def)
  show ?thesis
    using p hp prev bl fl S1eq stored stored_prev q hq p'_def by blast
qed

theorem proposed_block_links_witness:
  "\<exists>p p' q. one_block [1] = Some p \<and> Hash (GetCommon p) = [1]
     \<and> Previous fork_reply = Some p'
     \<and> p' = SetCommon p ((GetCommon p)
          \<lparr>ForwardLink := [(NewBlockLink example_env)
               \<lparr>LinkHash := Hash (GetCommon (Latest fork_reply))\<rparr>]\<rparr>)
     \<and> BackLink (GetCommon (Latest fork_reply)) = [[1]]
     \<and> ForwardLink (GetCommon p')
          = [(NewBlockLink example_env)\<lparr>LinkHash := Hash (GetCommon (Latest fork_reply))\<rparr>]
     \<and> fst (ProposeSkipBlock example_env one_block [1] (example_block [7]) [])
          = (one_block([1] \<mapsto> p'))(Hash (GetCommon (Latest fork_reply)) \<mapsto> Latest fork_reply)
     \<and> fst (ProposeSkipBlock example_env one_block [1] (example_block [7]) [])
          (Hash (GetCommon (Latest fork_reply))) = Some (Latest fork_reply)
     \<and> fst (ProposeSkipBlock example_env one_block [1] (example_block [7]) []) [1]
          = Some (if Hash (GetCommon (Latest fork_reply)) = [1] then Latest fork_reply else p')
     \<and> forked [1] = Some q \<and> Hash (GetCommon q) = [1]"
proof (rule proposed_block_links)
  show "one_block = ProposeSkipBlock_calls example_env Map.empty [([], example_block [], [])]"
    by (simp add: one_block_def)
  show "[1 :: 8 word] \<noteq> []" by simp
  show "ProposeSkipBlock example_env one_block [1] (example_block [7]) []
      = (fst (ProposeSkipBlock example_env one_block [1] (example_block [7]) []),
         Returned fork_reply)"
    by (simp add: one_block_def fork_reply_def example_eval)
  show "forked = ProposeSkipBlock_calls example_env
      (fst (ProposeSkipBlock example_env one_block [1] (example_block [7]) []))
      [([1], example_block [8], [])]"
    by (simp add: forked_def one_block_def)
qed

text \<open>
  The claim as stated fails: after two blocks were proposed on the genesis block
  \<open>[1]\<close>, the first of them, \<open>[2, 7]\<close>, is stored with back-link \<open>[1]\<close>, but
  the forward link of block \<open>[1]\<close> names the second, \<open>[2, 8]\<close>.
\<close>

theorem forward_link_overwritten_counterexample:
  "forked [2, 7] = Some (SkipBlockData \<lparr>Index = 2, Height = 1, BackLink = [[1]],
       ForwardLink = [], VerifierId = VerifyNone, ParentBlock = [7], Hash = [2, 7]\<rparr> [])
   \<and> forked [1] = Some (SkipBlockData \<lparr>Index = 1, Height = 1, BackLink = [replicate 32 0],
       ForwardLink = [\<lparr>LinkHash = [2, 8], Signature = []\<rparr>], VerifierId = VerifyNone,
       ParentBlock = [], Hash = [1]\<rparr> [])"
  by (simp add: forked_def example_eval)


section \<open>Panic containment\<close>

lemma createStateChanges_append:
  "createStateChanges X snap (xs @ ys) =
     (let r1 = createStateChanges X snap xs; r2 = createStateChanges X (snapshot r1) ys
      in \<lparr>accepted = accepted r1 @ accepted r2, rejected = rejected r1 @ rejected r2,
          changes = changes r1 @ changes r2, snapshot = snapshot r2\<rparr>)"
proof (induction xs arbitrary: snap)
  case Nil
  show ?case by (cases "createStateChanges X snap ys") (simp add: Let_def)
next
  case (Cons tx xs)
  show ?case
    by (cases "exec_tx X snap tx") (auto simp: Cons.IH Let_def)
qed

text \<open>
  Claim C4. When a transaction of a batch is rejected because one of its contracts
  panics, the executor still returns, and what it returns is what it returns for the
  batch without that transaction, except that the transaction is listed as rejected:
  the same transactions are accepted, the same state changes are produced and the
  resulting state is the same, so the panicking transaction adds no instance to it.
\<close>

theorem panic_containment:
  assumes "exec_tx X (snapshot (createStateChanges X snap pre)) tx = Inl ContractPanicked"
  shows "accepted (createStateChanges X snap (pre @ tx # post))
           = accepted (createStateChanges X snap (pre @ post))
       \<and> changes (createStateChanges X snap (pre @ tx # post))
           = changes (createStateChanges X snap (pre @ post))
       \<and> snapshot (createStateChanges X snap (pre @ tx # post))
           = snapshot (createStateChanges X snap (pre @ post))
       \<and> rejected (createStateChanges X snap (pre @ tx # post))
           = rejected (createStateChanges X snap pre) @ tx #
             rejected (createStateChanges X (snapshot (createStateChanges X snap pre)) post)"
  using assms by (simp add: createStateChanges_append Let_def)

lemmas exec_eval = exec_tx_def contract_of_def test_executor_def createOneClientTx_def
  panicContractFunc_def invalidContractFunc_def dummyContractFunc_def instance_key_def
  dummyKind_def invalidKind_def panicKind_def coll_Add_def Let_def

theorem panic_containment_witness:
  "accepted (createStateChanges test_executor Map.empty
       ([] @ createOneClientTx [1] [10] panicKind [97] # test_batch))
     = accepted (createStateChanges test_executor Map.empty ([] @ test_batch))
   \<and> changes (createStateChanges test_executor Map.empty
       ([] @ createOneClientTx [1] [10] panicKind [97] # test_batch))
     = changes (createStateChanges test_executor Map.empty ([] @ test_batch))
   \<and> snapshot (createStateChanges test_executor Map.empty
       ([] @ createOneClientTx [1] [10] panicKind [97] # test_batch))
     = snapshot (createStateChanges test_executor Map.empty ([] @ test_batch))
   \<and> rejected (createStateChanges test_executor Map.empty
       ([] @ createOneClientTx [1] [10] panicKind [97] # test_batch))
     = rejected (createStateChanges test_executor Map.empty []) @
       createOneClientTx [1] [10] panicKind [97] #
       rejected (createStateChanges test_executor
         (snapshot (createStateChanges test_executor Map.empty [])) test_batch)
   \<and> accepted (createStateChanges test_executor Map.empty
       (createOneClientTx [1] [10] panicKind [97] # test_batch))
     = [createOneClientTx [1] [12] dummyKind [98]]
   \<and> snapshot (createStateChanges test_executor Map.empty
       (createOneClientTx [1] [10] panicKind [97] # test_batch))
     = [[1, 12] \<mapsto> ([98], dummyKind, [1])]"
proof -
  have panics: "exec_tx test_executor
      (snapshot (createStateChanges test_executor Map.empty []))
      (createOneClientTx [1] [10] panicKind [97]) = Inl ContractPanicked"
    by (simp add: exec_eval)
  have run: "createStateChanges test_executor Map.empty
       (createOneClientTx [1] [10] panicKind [97] # test_batch)
     = \<lparr>accepted = [createOneClientTx [1] [12] dummyKind [98]],
        rejected = [createOneClientTx [1] [10] panicKind [97],
                    createOneClientTx [1] [11] invalidKind [97]],
        changes = [\<lparr>StateAction = Create, InstanceID = [1, 12], ContractID = dummyKind,
                     DarcID = [1], Value = [98]\<rparr>],
        snapshot = [[1, 12] \<mapsto> ([98], dummyKind, [1])]\<rparr>"
    by (simp add: test_batch_def exec_eval)
  from panic_containment [OF panics, of test_batch] run show ?thesis
    by simp
qed

section \<open>Darc evolution is accepted for the next version only\<close>





end
